theory Spec2Isabelle
  imports Main
begin

section \<open>Python values, exceptions and the built-in operations the code uses\<close>

text \<open>
  The records handled by \<^verbatim>\<open>papis/crossref.py\<close> are decoded JSON: \<^verbatim>\<open>None\<close>, booleans,
  integers, strings, lists and dictionaries with string keys. A dictionary is an association
  list in insertion order, as Python dictionaries iterate; it is read by its first entry for
  a key. A string is a list of characters, each character standing for one code point below
  256. Floating point numbers are left out.
\<close>

datatype pyval =
    PNone
  | PBool bool
  | PInt int
  | PStr string
  | PList "pyval list"
  | PDict "(string \<times> pyval) list"

type_synonym pydict = "(string \<times> pyval) list"

text \<open>
  The exceptions are the built-in classes that the modelled statements raise,
  \<open>OtherValueError\<close> with the class name for a proper subclass of \<^verbatim>\<open>ValueError\<close>, and
  \<open>OtherError\<close> with the class name for any other subclass of \<^verbatim>\<open>Exception\<close>: those
  raised by the external collaborators and those that only the specification names.
  Every one of them is caught by \<^verbatim>\<open>except Exception\<close>; \<^verbatim>\<open>except ValueError\<close> catches
  the class and its subclasses.
\<close>

datatype pyexc =
    AttributeError
  | TypeError
  | KeyError
  | IndexError
  | ValueError
  | OtherValueError string
  | OtherError string

fun is_ValueError :: "pyexc \<Rightarrow> bool" where
  "is_ValueError ValueError = True"
| "is_ValueError (OtherValueError name) = True"
| "is_ValueError _ = False"

definition InvalidSourceRecord :: pyexc where
  "InvalidSourceRecord = OtherError ''InvalidSourceRecord''"

text \<open>\<^verbatim>\<open>d[k] = v\<close>: an existing key keeps its position, a new key goes to the end.\<close>

fun dict_set :: "pydict \<Rightarrow> string \<Rightarrow> pyval \<Rightarrow> pydict" where
  "dict_set [] k v = [(k, v)]"
| "dict_set ((k', v') # d) k v =
     (if k' = k then (k, v) # d else (k', v') # dict_set d k v)"

text \<open>\<^verbatim>\<open>bool(x)\<close>, as used by \<^verbatim>\<open>if x\<close> and \<^verbatim>\<open>not x\<close>.\<close>

fun py_truthy :: "pyval \<Rightarrow> bool" where
  "py_truthy PNone = False"
| "py_truthy (PBool b) = b"
| "py_truthy (PInt i) = (i \<noteq> 0)"
| "py_truthy (PStr s) = (s \<noteq> [])"
| "py_truthy (PList xs) = (xs \<noteq> [])"
| "py_truthy (PDict d) = (d \<noteq> [])"

text \<open>\<^verbatim>\<open>x.keys()\<close>: only a dictionary has the method.\<close>

fun py_keys :: "pyval \<Rightarrow> pyexc + string list" where
  "py_keys (PDict d) = Inr (map fst d)"
| "py_keys _ = Inl AttributeError"

text \<open>\<^verbatim>\<open>x.get(k)\<close>: \<^verbatim>\<open>None\<close> for a missing key; only a dictionary has the method.\<close>

fun py_get :: "pyval \<Rightarrow> string \<Rightarrow> pyexc + pyval" where
  "py_get (PDict d) k = Inr (case map_of d k of None \<Rightarrow> PNone | Some v \<Rightarrow> v)"
| "py_get _ k = Inl AttributeError"

text \<open>\<^verbatim>\<open>x[k]\<close> with a string \<open>k\<close>.\<close>

fun py_getitem :: "pyval \<Rightarrow> string \<Rightarrow> pyexc + pyval" where
  "py_getitem (PDict d) k = (case map_of d k of None \<Rightarrow> Inl KeyError | Some v \<Rightarrow> Inr v)"
| "py_getitem _ k = Inl TypeError"

text \<open>
  \<^verbatim>\<open>x[i]\<close> with a non-negative integer \<open>i\<close> (the code only uses 0 and 1). A JSON
  dictionary has no integer key.
\<close>

fun py_index :: "pyval \<Rightarrow> nat \<Rightarrow> pyexc + pyval" where
  "py_index (PList xs) i = (if i < length xs then Inr (xs ! i) else Inl IndexError)"
| "py_index (PStr s) i = (if i < length s then Inr (PStr [s ! i]) else Inl IndexError)"
| "py_index (PDict d) i = Inl KeyError"
| "py_index _ i = Inl TypeError"

text \<open>
  \<^verbatim>\<open>for a in x\<close>: the elements of a list, the one-character strings of a string, the keys
  of a dictionary; anything else is not iterable.
\<close>

fun py_iter :: "pyval \<Rightarrow> pyexc + pyval list" where
  "py_iter (PList xs) = Inr xs"
| "py_iter (PStr s) = Inr (map (\<lambda>c. PStr [c]) s)"
| "py_iter (PDict d) = Inr (map (\<lambda>kv. PStr (fst kv)) d)"
| "py_iter _ = Inl TypeError"

text \<open>A comprehension \<^verbatim>\<open>[f(x) for x in xs]\<close>: left to right, the first exception ends it.\<close>

fun map_exc :: "('a \<Rightarrow> pyexc + 'b) \<Rightarrow> 'a list \<Rightarrow> pyexc + 'b list" where
  "map_exc f [] = Inr []"
| "map_exc f (x # xs) =
     (case f x of
        Inl e \<Rightarrow> Inl e
      | Inr y \<Rightarrow> (case map_exc f xs of Inl e \<Rightarrow> Inl e | Inr ys \<Rightarrow> Inr (y # ys)))"

text \<open>\<^verbatim>\<open>sep.join(xs)\<close> on a list of strings.\<close>

fun join :: "string \<Rightarrow> string list \<Rightarrow> string" where
  "join sep [] = []"
| "join sep [s] = s"
| "join sep (s # t # ss) = s @ sep @ join sep (t # ss)"

fun as_str :: "pyval \<Rightarrow> pyexc + string" where
  "as_str (PStr s) = Inr s"
| "as_str _ = Inl TypeError"

text \<open>\<^verbatim>\<open>sep.join(x)\<close> on any value: \<open>x\<close> must be iterable and yield strings only.\<close>

definition py_join :: "string \<Rightarrow> pyval \<Rightarrow> pyexc + string" where
  "py_join sep x =
     (case py_iter x of
        Inl e \<Rightarrow> Inl e
      | Inr xs \<Rightarrow> (case map_exc as_str xs of Inl e \<Rightarrow> Inl e | Inr ss \<Rightarrow> Inr (join sep ss)))"

text \<open>\<^verbatim>\<open>str.lower()\<close> on code points below 256: A-Z and the accented capitals.\<close>

definition lower_chr :: "char \<Rightarrow> char" where
  "lower_chr c =
     (let n = (of_char c :: nat)
      in if (65 \<le> n \<and> n \<le> 90) \<or> (192 \<le> n \<and> n \<le> 222 \<and> n \<noteq> 215)
         then char_of (n + 32) else c)"

definition lower :: "string \<Rightarrow> string" where
  "lower s = map lower_chr s"

text \<open>
  The characters that the pattern \<^verbatim>\<open>\s\<close> matches in a \<^verbatim>\<open>str\<close>, among the code points
  below 256: tab to carriage return, the four separators 28 to 31, space, NEL and the
  no-break space.
\<close>

definition py_isspace :: "char \<Rightarrow> bool" where
  "py_isspace c =
     (let n = (of_char c :: nat)
      in (9 \<le> n \<and> n \<le> 13) \<or> (28 \<le> n \<and> n \<le> 32) \<or> n = 133 \<or> n = 160)"

text \<open>\<^verbatim>\<open>re.sub(r'\s', '', s)\<close>: every whitespace character is deleted.\<close>

definition re_sub_space :: "string \<Rightarrow> string" where
  "re_sub_space s = filter (\<lambda>c. \<not> py_isspace c) s"

text \<open>
  \<^verbatim>\<open>re.sub(r"(-[^-])", r"-\1", p)\<close>: scanning from the left, each dash followed by a
  character other than a dash is a match (the two characters are consumed) and is
  replaced by a dash and the match itself.
\<close>

fun re_sub_dash :: "string \<Rightarrow> string" where
  "re_sub_dash (c # d # cs) =
     (if c = CHR ''-'' \<and> d \<noteq> CHR ''-''
      then CHR ''-'' # c # d # re_sub_dash cs
      else c # re_sub_dash (d # cs))"
| "re_sub_dash cs = cs"

section \<open>The conversion table of \<^verbatim>\<open>papis/crossref.py\<close>\<close>

definition type_converter :: "(string \<times> string) list" where
  "type_converter =
     [(''book'', ''book''),
      (''book-chapter'', ''inbook''),
      (''book-part'', ''inbook''),
      (''book-section'', ''inbook''),
      (''book-series'', ''incollection''),
      (''book-set'', ''incollection''),
      (''book-track'', ''inbook''),
      (''dataset'', ''misc''),
      (''dissertation'', ''phdthesis''),
      (''edited-book'', ''book''),
      (''journal-article'', ''article''),
      (''journal-issue'', ''misc''),
      (''journal-volume'', ''article''),
      (''monograph'', ''monograph''),
      (''other'', ''misc''),
      (''peer-review'', ''article''),
      (''posted-content'', ''misc''),
      (''proceedings-article'', ''inproceedings''),
      (''proceedings'', ''inproceedings''),
      (''proceedings-series'', ''inproceedings''),
      (''reference-book'', ''book''),
      (''report'', ''report''),
      (''report-series'', ''inproceedings''),
      (''standard-series'', ''incollection''),
      (''standard'', ''techreport'')]"

text \<open>
  A rule is one of the dictionaries of the table: the optional entry \<^verbatim>\<open>'key'\<close> and the
  optional entry \<^verbatim>\<open>'action'\<close>, a function that may raise. A source key has one rule or a
  list of rules.
\<close>

record rule =
  key :: "string option"
  action :: "(pyval \<Rightarrow> pyexc + pyval) option"

datatype conv = Single rule | Multiple "rule list"

text \<open>
  \<^verbatim>\<open>lambda authors: [{k: a.get(k) for k in ['given', 'family']} for a in authors]\<close>
\<close>

definition given_family :: "pyval \<Rightarrow> pyexc + pyval" where
  "given_family a =
     (case py_get a ''given'' of
        Inl e \<Rightarrow> Inl e
      | Inr g \<Rightarrow>
          (case py_get a ''family'' of
             Inl e \<Rightarrow> Inl e
           | Inr f \<Rightarrow> Inr (PDict [(''given'', g), (''family'', f)])))"

definition author_action :: "pyval \<Rightarrow> pyexc + pyval" where
  "author_action authors =
     (case py_iter authors of
        Inl e \<Rightarrow> Inl e
      | Inr as \<Rightarrow> (case map_exc given_family as of Inl e \<Rightarrow> Inl e | Inr l \<Rightarrow> Inr (PList l)))"

text \<open>\<^verbatim>\<open>lambda x: x[0]\<close>\<close>

definition container_title_action :: "pyval \<Rightarrow> pyexc + pyval" where
  "container_title_action x = py_index x 0"

text \<open>\<^verbatim>\<open>lambda p: re.sub(r"(-[^-])", r"-\1", p)\<close>: anything but a string is a type error.\<close>

definition page_action :: "pyval \<Rightarrow> pyexc + pyval" where
  "page_action p = (case p of PStr s \<Rightarrow> Inr (PStr (re_sub_dash s)) | _ \<Rightarrow> Inl TypeError)"

text \<open>
  \<^verbatim>\<open>lambda x: x.get("date-parts")[0][0]\<close> and \<^verbatim>\<open>lambda x: x.get("date-parts")[0][1]\<close>
\<close>

definition date_part :: "nat \<Rightarrow> pyval \<Rightarrow> pyexc + pyval" where
  "date_part i x =
     (case py_get x ''date-parts'' of
        Inl e \<Rightarrow> Inl e
      | Inr dp \<Rightarrow> (case py_index dp 0 of Inl e \<Rightarrow> Inl e | Inr d \<Rightarrow> py_index d i))"

text \<open>
  \<^verbatim>\<open>lambda cs: [{key.lower(): c[key] for key in set(c.keys()) - set(("key", "doi-asserted-by"))} for c in cs]\<close>.
  Python leaves the iteration order of a set open; the model takes the keys in the order
  of the dictionary. The order only matters when two keys of one citation are equal after
  \<^verbatim>\<open>lower()\<close>.
\<close>

fun lower_items :: "pyval \<Rightarrow> string list \<Rightarrow> pydict \<Rightarrow> pyexc + pydict" where
  "lower_items c [] acc = Inr acc"
| "lower_items c (k # ks) acc =
     (case py_getitem c k of
        Inl e \<Rightarrow> Inl e
      | Inr v \<Rightarrow> lower_items c ks (dict_set acc (lower k) v))"

definition citation_item :: "pyval \<Rightarrow> pyexc + pyval" where
  "citation_item c =
     (case py_keys c of
        Inl e \<Rightarrow> Inl e
      | Inr ks \<Rightarrow>
          (case lower_items c
                  (filter (\<lambda>k. k \<noteq> ''key'' \<and> k \<noteq> ''doi-asserted-by'') (remdups ks)) [] of
             Inl e \<Rightarrow> Inl e
           | Inr d \<Rightarrow> Inr (PDict d)))"

definition reference_action :: "pyval \<Rightarrow> pyexc + pyval" where
  "reference_action cs =
     (case py_iter cs of
        Inl e \<Rightarrow> Inl e
      | Inr l \<Rightarrow> (case map_exc citation_item l of Inl e \<Rightarrow> Inl e | Inr r \<Rightarrow> Inr (PList r)))"

text \<open>\<^verbatim>\<open>lambda t: " ".join(t)\<close>\<close>

definition title_action :: "pyval \<Rightarrow> pyexc + pyval" where
  "title_action t = (case py_join '' '' t of Inl e \<Rightarrow> Inl e | Inr s \<Rightarrow> Inr (PStr s))"

text \<open>
  \<^verbatim>\<open>lambda t: type_converter[t]\<close>: a list or a dictionary is unhashable, any other value
  that is not a key of the table is a key error.
\<close>

definition type_action :: "pyval \<Rightarrow> pyexc + pyval" where
  "type_action t =
     (case t of
        PStr s \<Rightarrow> (case map_of type_converter s of None \<Rightarrow> Inl KeyError | Some v \<Rightarrow> Inr (PStr v))
      | PList l \<Rightarrow> Inl TypeError
      | PDict d \<Rightarrow> Inl TypeError
      | _ \<Rightarrow> Inl KeyError)"

definition key_conversion :: "(string \<times> conv) list" where
  "key_conversion =
     [(''DOI'', Single \<lparr>key = Some ''doi'', action = None\<rparr>),
      (''URL'', Single \<lparr>key = Some ''url'', action = None\<rparr>),
      (''author'', Single \<lparr>key = Some ''author_list'', action = Some author_action\<rparr>),
      (''container-title'',
         Single \<lparr>key = Some ''journal'', action = Some container_title_action\<rparr>),
      (''issue'', Single \<lparr>key = None, action = None\<rparr>),
      (''language'', Single \<lparr>key = None, action = None\<rparr>),
      (''page'', Single \<lparr>key = Some ''pages'', action = Some page_action\<rparr>),
      (''published-print'',
         Multiple [\<lparr>key = Some ''year'', action = Some (date_part 0)\<rparr>,
                   \<lparr>key = Some ''month'', action = Some (date_part 1)\<rparr>]),
      (''publisher'', Single \<lparr>key = None, action = None\<rparr>),
      (''reference'', Single \<lparr>key = Some ''citations'', action = Some reference_action\<rparr>),
      (''title'', Single \<lparr>key = Some ''title'', action = Some title_action\<rparr>),
      (''type'', Single \<lparr>key = Some ''type'', action = Some type_action\<rparr>),
      (''volume'', Single \<lparr>key = None, action = None\<rparr>)]"

section \<open>The external collaborators\<close>

text \<open>
  A document of the library is an object of the class \<^verbatim>\<open>papis.document.Document\<close>
  around its data. \<^verbatim>\<open>papis.utils.format_doc\<close> is called with a plain dictionary in
  \<^verbatim>\<open>crossref.py\<close> and with a document in \<^verbatim>\<open>explore.py\<close>.
\<close>

datatype document = Document pyval

datatype pyobj = Data pyval | Doc document

text \<open>
  The functions that the three source files call and do not define are parameters.
  Each one that can raise returns a sum.
  \<^item> \<open>config_get\<close>: \<^verbatim>\<open>papis.config.get\<close>, for the options that have a default;
  \<^item> \<open>str_format_au\<close>: \<^verbatim>\<open>fmt.format(au=author)\<close>;
  \<^item> \<open>format_doc\<close>: \<^verbatim>\<open>papis.utils.format_doc\<close>;
  \<^item> \<open>habanero_works\<close>: \<^verbatim>\<open>habanero.Crossref().works\<close>, with its keyword arguments;
  \<^item> \<open>get_clean_doi\<close>: \<^verbatim>\<open>papis.doi.get_clean_doi\<close>;
  \<^item> \<open>from_data\<close>: \<^verbatim>\<open>papis.document.from_data\<close>;
  \<^item> \<open>pick_doc\<close>: \<^verbatim>\<open>papis.api.pick_doc\<close>, a document or \<^verbatim>\<open>None\<close>;
  \<^item> \<open>export_run\<close>: \<^verbatim>\<open>papis.commands.export.run\<close>;
  \<^item> \<open>open_append\<close>: whether \<^verbatim>\<open>open(out, 'a+')\<close> succeeds;
  \<^item> \<open>shlex_split\<close>: \<^verbatim>\<open>shlex.split\<close>;
  \<^item> \<open>call\<close>: \<^verbatim>\<open>subprocess.call\<close>;
  \<^item> \<open>query_dict\<close>: \<^verbatim>\<open>db.query_dict(dict(doi=doi))\<close> of the library database.
\<close>

record env =
  config_get :: "string \<Rightarrow> string"
  str_format_au :: "string \<Rightarrow> pyval \<Rightarrow> pyexc + string"
  format_doc :: "string \<Rightarrow> pyobj \<Rightarrow> pyexc + string"
  habanero_works :: "pydict \<Rightarrow> pyexc + pyval"
  get_clean_doi :: "pyval \<Rightarrow> pyexc + pyval"
  from_data :: "pyval \<Rightarrow> pyexc + document"
  pick_doc :: "document list \<Rightarrow> pyexc + document option"
  export_run :: "document list \<Rightarrow> string \<Rightarrow> pyexc + string"
  open_append :: "string \<Rightarrow> pyexc + unit"
  shlex_split :: "string \<Rightarrow> pyexc + string list"
  call :: "string list \<Rightarrow> pyexc + int"
  query_dict :: "pyval \<Rightarrow> pyexc + document list"

section \<open>\<^verbatim>\<open>crossref_data_to_papis_data\<close>\<close>

text \<open>
  The inner loop (lines 90 to 102), over the rules of one source key. \<open>rule_target\<close> is the
  key under which a rule stores (lines 91, 93 and 94), \<open>rule_value\<close> the value it stores or
  the exception of its action (lines 92, 96 and 97). The value is read with
  \<^verbatim>\<open>data[xrefkey]\<close> before the \<^verbatim>\<open>try\<close>; the action and the assignment are inside it, and
  \<^verbatim>\<open>except Exception\<close> goes on with the next rule. The calls of the logger change no
  value and are left out.
\<close>

definition rule_target :: "string \<Rightarrow> rule \<Rightarrow> string" where
  "rule_target xrefkey conv_data = (case key conv_data of Some k \<Rightarrow> k | None \<Rightarrow> xrefkey)"

definition rule_value :: "rule \<Rightarrow> pyval \<Rightarrow> pyexc + pyval" where
  "rule_value conv_data v = (case action conv_data of Some f \<Rightarrow> f v | None \<Rightarrow> Inr v)"

fun convert_rules :: "string \<Rightarrow> pyval \<Rightarrow> rule list \<Rightarrow> pydict \<Rightarrow> pyexc + pydict" where
  "convert_rules xrefkey data [] new_data = Inr new_data"
| "convert_rules xrefkey data (conv_data # rest) new_data =
     (case py_getitem data xrefkey of
        Inl e \<Rightarrow> Inl e
      | Inr v \<Rightarrow>
          (let papis_key = rule_target xrefkey conv_data
           in case rule_value conv_data v of
                Inl e \<Rightarrow> convert_rules xrefkey data rest new_data
              | Inr papis_val \<Rightarrow>
                  convert_rules xrefkey data rest (dict_set new_data papis_key papis_val)))"

text \<open>A single rule is handled as the list of that rule (lines 86 to 89).\<close>

fun rules_of :: "conv \<Rightarrow> rule list" where
  "rules_of (Single r) = [r]"
| "rules_of (Multiple rs) = rs"

text \<open>The outer loop (lines 83 to 90), over the keys of the table in their order.\<close>

fun convert_keys :: "(string \<times> conv) list \<Rightarrow> pyval \<Rightarrow> pydict \<Rightarrow> pyexc + pydict" where
  "convert_keys [] data new_data = Inr new_data"
| "convert_keys ((xrefkey, conv_data_src) # rest) data new_data =
     (case py_keys data of
        Inl e \<Rightarrow> Inl e
      | Inr ks \<Rightarrow>
          if xrefkey \<notin> set ks then convert_keys rest data new_data
          else (case convert_rules xrefkey data (rules_of conv_data_src) new_data of
                  Inl e \<Rightarrow> Inl e
                | Inr nd \<Rightarrow> convert_keys rest data nd))"

text \<open>Lines 104 to 111: the field \<^verbatim>\<open>author\<close>, when there is an \<^verbatim>\<open>author_list\<close>.\<close>

definition author_field :: "env \<Rightarrow> pydict \<Rightarrow> pyexc + pydict" where
  "author_field E new_data =
     (case map_of new_data ''author_list'' of
        None \<Rightarrow> Inr new_data
      | Some author_list \<Rightarrow>
          (case py_iter author_list of
             Inl e \<Rightarrow> Inl e
           | Inr authors \<Rightarrow>
               (case map_exc (str_format_au E (config_get E ''multiple-authors-format''))
                       authors of
                  Inl e \<Rightarrow> Inl e
                | Inr ss \<Rightarrow>
                    Inr (dict_set new_data ''author''
                          (PStr (join (config_get E ''multiple-authors-separator'') ss))))))"

text \<open>Lines 113 to 115: the field \<^verbatim>\<open>ref\<close>, from the record as it is by then.\<close>

definition ref_field :: "env \<Rightarrow> pydict \<Rightarrow> pyexc + pydict" where
  "ref_field E new_data =
     (case format_doc E (config_get E ''ref-format'') (Data (PDict new_data)) of
        Inl e \<Rightarrow> Inl e
      | Inr s \<Rightarrow> Inr (dict_set new_data ''ref'' (PStr (re_sub_space s))))"

definition crossref_data_to_papis_data :: "env \<Rightarrow> pyval \<Rightarrow> pyexc + pydict" where
  "crossref_data_to_papis_data E data =
     (case convert_keys key_conversion data [] of
        Inl e \<Rightarrow> Inl e
      | Inr new_data \<Rightarrow>
          (case author_field E new_data of
             Inl e \<Rightarrow> Inl e
           | Inr with_author \<Rightarrow> ref_field E with_author))"

section \<open>\<^verbatim>\<open>get_data\<close> and \<^verbatim>\<open>doi_to_data\<close>\<close>

definition get_crossref_works :: "env \<Rightarrow> pydict \<Rightarrow> pyexc + pyval" where
  "get_crossref_works E kwargs = habanero_works E kwargs"

text \<open>
  Lines 129 to 136: the keyword arguments are the entries with a true value, and
  \<^verbatim>\<open>sort='relevance'\<close> when no DOI is given. \<open>dois\<close> is a list, as the assertion of line
  128 requires.
\<close>

definition get_data_kwargs :: "pyval \<Rightarrow> pyval \<Rightarrow> pyval \<Rightarrow> pyval list \<Rightarrow> pyval \<Rightarrow> pydict" where
  "get_data_kwargs query author title dois max_results =
     (let data = [(''query'', query), (''query_author'', author), (''ids'', PList dois),
                  (''query_title'', title), (''limit'', max_results)];
          kwargs = filter (\<lambda>kv. py_truthy (snd kv)) data
      in if dois = [] then dict_set kwargs ''sort'' (PStr ''relevance'') else kwargs)"

definition get_data ::
  "env \<Rightarrow> pyval \<Rightarrow> pyval \<Rightarrow> pyval \<Rightarrow> pyval list \<Rightarrow> pyval \<Rightarrow> pyexc + pydict list" where
  "get_data E query author title dois max_results =
     (case get_crossref_works E (get_data_kwargs query author title dois max_results) of
        Inl e \<Rightarrow> Inr []
      | Inr results \<Rightarrow>
          (case py_keys results of
             Inl e \<Rightarrow> Inl e
           | Inr ks \<Rightarrow>
               if ''message'' \<notin> set ks then Inr []
               else (case py_getitem results ''message'' of
                  Inl e \<Rightarrow> Inl e
                | Inr message \<Rightarrow>
                    (case py_keys message of
                       Inl e \<Rightarrow> Inl e
                     | Inr mks \<Rightarrow>
                         (case (if ''items'' \<in> set mks then py_getitem message ''items''
                                else Inr (PList [message])) of
                            Inl e \<Rightarrow> Inl e
                          | Inr docs \<Rightarrow>
                              (case py_iter docs of
                                 Inl e \<Rightarrow> Inl e
                               | Inr ds \<Rightarrow> map_exc (crossref_data_to_papis_data E) ds))))))"

text \<open>
  \<^verbatim>\<open>doi_to_data\<close>: the \<^verbatim>\<open>raise ValueError\<close> of line 171 follows the \<^verbatim>\<open>return\<close> of line 170
  in the same branch, so no path reaches it; with no result the function ends without a
  \<^verbatim>\<open>return\<close>, that is with \<^verbatim>\<open>None\<close>.
\<close>

definition doi_to_data :: "env \<Rightarrow> pyval \<Rightarrow> pyexc + pyval" where
  "doi_to_data E doi =
     (case get_clean_doi E doi of
        Inl e \<Rightarrow> Inl e
      | Inr doi' \<Rightarrow>
          (case get_data E (PStr []) (PStr []) (PStr []) [doi'] (PInt 0) of
             Inl e \<Rightarrow> Inl e
           | Inr results \<Rightarrow>
               (case results of
                  r # _ \<Rightarrow> Inr (PDict r)
                | [] \<Rightarrow> Inr PNone)))"

section \<open>The chained commands of \<^verbatim>\<open>papis/commands/explore.py\<close>\<close>

text \<open>
  The state is \<^verbatim>\<open>ctx.obj['documents']\<close> together with what the commands have done to the
  outside so far: text printed, text appended to a file, programs called.
\<close>

datatype effect = Printed string | Written string string | Called "string list"

record state =
  documents :: "document list"
  effects :: "effect list"

text \<open>The group callback: \<^verbatim>\<open>ctx.obj = {'documents': []}\<close>.\<close>

definition cli :: state where
  "cli = \<lparr>documents = [], effects = []\<rparr>"

text \<open>
  Lines 223 to 229 of \<^verbatim>\<open>crossref\<close>: the documents that one call of the command produces.
\<close>

definition crossref_docs :: "env \<Rightarrow> pyval \<Rightarrow> pyval \<Rightarrow> pyval \<Rightarrow> pyval \<Rightarrow> pyexc + document list" where
  "crossref_docs E query author title mx =
     (case get_data E query author title [] mx of
        Inl e \<Rightarrow> Inl e
      | Inr data \<Rightarrow> map_exc (\<lambda>d. from_data E (PDict d)) data)"

text \<open>Line 230: \<^verbatim>\<open>ctx.obj['documents'] += docs\<close>.\<close>

definition crossref :: "env \<Rightarrow> pyval \<Rightarrow> pyval \<Rightarrow> pyval \<Rightarrow> pyval \<Rightarrow> state \<Rightarrow> pyexc + state" where
  "crossref E query author title mx st =
     (case crossref_docs E query author title mx of
        Inl e \<Rightarrow> Inl e
      | Inr docs \<Rightarrow> Inr (st\<lparr>documents := documents st @ docs\<rparr>))"

text \<open>\<^verbatim>\<open>docs[i]\<close> on a list: a negative index counts from the end.\<close>

definition list_getitem :: "'a list \<Rightarrow> int \<Rightarrow> pyexc + 'a" where
  "list_getitem xs i =
     (if 0 \<le> i \<and> i < int (length xs) then Inr (xs ! nat i)
      else if i < 0 \<and> - int (length xs) \<le> i then Inr (xs ! nat (int (length xs) + i))
      else Inl IndexError)"

text \<open>Lines 383 to 385 of \<^verbatim>\<open>pick\<close>: the documents offered to the picker.\<close>

definition pick_candidates :: "int option \<Rightarrow> document list \<Rightarrow> pyexc + document list" where
  "pick_candidates number docs =
     (case number of
        None \<Rightarrow> Inr docs
      | Some n \<Rightarrow> (case list_getitem docs (n - 1) of Inl e \<Rightarrow> Inl e | Inr d \<Rightarrow> Inr [d]))"

text \<open>
  Lines 386 to 389: the list of the picker's answer, without \<^verbatim>\<open>None\<close>.
\<close>

definition pick :: "env \<Rightarrow> int option \<Rightarrow> state \<Rightarrow> pyexc + state" where
  "pick E number st =
     (case pick_candidates number (documents st) of
        Inl e \<Rightarrow> Inl e
      | Inr docs \<Rightarrow>
          (case pick_doc E docs of
             Inl e \<Rightarrow> Inl e
           | Inr picked \<Rightarrow>
               Inr (st\<lparr>documents := (case picked of None \<Rightarrow> [] | Some d \<Rightarrow> [d])\<rparr>)))"

definition export :: "env \<Rightarrow> string \<Rightarrow> string option \<Rightarrow> state \<Rightarrow> pyexc + state" where
  "export E format out st =
     (let docs = documents st
      in case export_run E docs format of
           Inl e \<Rightarrow> Inl e
         | Inr outstring \<Rightarrow>
             (case out of
                Some path \<Rightarrow>
                  (case open_append E path of
                     Inl e \<Rightarrow> Inl e
                   | Inr u \<Rightarrow> Inr (st\<lparr>effects := effects st @ [Written path outstring]\<rparr>))
              | None \<Rightarrow> Inr (st\<lparr>effects := effects st @ [Printed outstring]\<rparr>)))"

text \<open>The loop of \<^verbatim>\<open>cmd\<close> (lines 655 to 659).\<close>

fun cmd_loop :: "env \<Rightarrow> string \<Rightarrow> document list \<Rightarrow> effect list \<Rightarrow> pyexc + effect list" where
  "cmd_loop E command [] effs = Inr effs"
| "cmd_loop E command (doc # docs) effs =
     (case format_doc E command (Doc doc) of
        Inl e \<Rightarrow> Inl e
      | Inr fcommand \<Rightarrow>
          (case shlex_split E fcommand of
             Inl e \<Rightarrow> Inl e
           | Inr splitted_command \<Rightarrow>
               (case call E splitted_command of
                  Inl e \<Rightarrow> Inl e
                | Inr rc \<Rightarrow> cmd_loop E command docs (effs @ [Called splitted_command]))))"

definition cmd :: "env \<Rightarrow> string \<Rightarrow> state \<Rightarrow> pyexc + state" where
  "cmd E command st =
     (let docs = documents st
      in case cmd_loop E command docs (effects st) of
           Inl e \<Rightarrow> Inl e
         | Inr effs \<Rightarrow> Inr (st\<lparr>effects := effs\<rparr>))"

text \<open>
  The group is declared with \<^verbatim>\<open>chain=True\<close>: the callback \<^verbatim>\<open>cli\<close> runs first, then the
  commands of the command line from left to right on the same \<^verbatim>\<open>ctx.obj\<close>; an exception
  ends the run.
\<close>

datatype command =
    Crossref pyval pyval pyval pyval
  | Pick "int option"
  | Export string "string option"
  | Cmd string

fun run_command :: "env \<Rightarrow> command \<Rightarrow> state \<Rightarrow> pyexc + state" where
  "run_command E (Crossref query author title mx) st = crossref E query author title mx st"
| "run_command E (Pick number) st = pick E number st"
| "run_command E (Export format out) st = export E format out st"
| "run_command E (Cmd command) st = cmd E command st"

fun run_chain :: "env \<Rightarrow> command list \<Rightarrow> state \<Rightarrow> pyexc + state" where
  "run_chain E [] st = Inr st"
| "run_chain E (c # cs) st =
     (case run_command E c st of Inl e \<Rightarrow> Inl e | Inr st' \<Rightarrow> run_chain E cs st')"

definition explore :: "env \<Rightarrow> command list \<Rightarrow> pyexc + state" where
  "explore E cs = run_chain E cs cli"

text \<open>
  The loop of \<^verbatim>\<open>citations\<close> over the DOIs (lines 497 to 523): a DOI found in the library
  gives its first document, any other one is looked up with \<^verbatim>\<open>doi_to_data\<close>.
  \<^verbatim>\<open>except ValueError\<close> records the DOI as failed, \<^verbatim>\<open>except Exception\<close> drops it. The
  progress bar is left out.
\<close>

fun citations_fetch ::
  "env \<Rightarrow> pyval list \<Rightarrow> pyobj list \<Rightarrow> pyval list \<Rightarrow> pyexc + (pyobj list \<times> pyval list)" where
  "citations_fetch E [] dois_with_data failed_dois = Inr (dois_with_data, failed_dois)"
| "citations_fetch E (doi # dois) dois_with_data failed_dois =
     (case query_dict E doi of
        Inl e \<Rightarrow> Inl e
      | Inr citation \<Rightarrow>
          (case citation of
             c # _ \<Rightarrow> citations_fetch E dois (dois_with_data @ [Doc c]) failed_dois
           | [] \<Rightarrow>
               (case doi_to_data E doi of
                  Inr d \<Rightarrow> citations_fetch E dois (dois_with_data @ [Data d]) failed_dois
                | Inl e \<Rightarrow>
                    if is_ValueError e
                    then citations_fetch E dois dois_with_data (failed_dois @ [doi])
                    else citations_fetch E dois dois_with_data failed_dois)))"

section \<open>Auxiliary definitions for the statements\<close>

text \<open>The keys under which the rules of a table store, in the order of the table.\<close>

definition targets :: "(string \<times> conv) list \<Rightarrow> string list" where
  "targets T = concat (map (\<lambda>kc. map (rule_target (fst kc)) (rules_of (snd kc))) T)"

text \<open>
  One concrete choice of the collaborators, to evaluate the functions on concrete input:
  a template without fields is its own result, the service answers three queries, the
  picker takes the only document offered or the first of several.
\<close>

definition sample_works :: "pydict \<Rightarrow> pyexc + pyval" where
  "sample_works kwargs =
     (if map_of kwargs ''query'' = Some (PStr ''down'') then Inl (OtherError ''HTTPError'')
      else if map_of kwargs ''query'' = Some (PStr ''odd'')
        then Inr (PDict [(''status'', PStr ''failed'')])
      else if map_of kwargs ''query'' = Some (PStr ''dyson'')
        then Inr (PDict [(''message'', PDict [(''items'', PList
               [PDict [(''DOI'', PStr ''10.1/x''), (''title'', PList [PStr ''A Study'']),
                       (''type'', PStr ''journal-article'')],
                PDict [(''page'', PStr ''12-3'')]])])])
      else Inr (PDict [(''message'', PDict [(''items'', PList [])])]))"

definition sample_env :: env where
  "sample_env =
     \<lparr>config_get = (\<lambda>name. if name = ''ref-format'' then ''a ref'' else
                      if name = ''multiple-authors-separator'' then '' and '' else name),
      str_format_au = (\<lambda>fmt au. Inr fmt),
      format_doc = (\<lambda>fmt obj. Inr fmt),
      habanero_works = sample_works,
      get_clean_doi = (\<lambda>doi. Inr doi),
      from_data = (\<lambda>d. Inr (Document d)),
      pick_doc = (\<lambda>docs. Inr (case docs of [] \<Rightarrow> None | d # _ \<Rightarrow> Some d)),
      export_run = (\<lambda>docs fmt. Inr fmt),
      open_append = (\<lambda>path. Inr ()),
      shlex_split = (\<lambda>s. Inr [s]),
      call = (\<lambda>args. Inr 0),
      query_dict = (\<lambda>doi. Inr [])\<rparr>"

section \<open>Lemmas on the two loops of the conversion\<close>

lemma map_of_dict_set: "map_of (dict_set d k v) = (map_of d)(k \<mapsto> v)"
  by (induction d k v rule: dict_set.induct) auto

lemma in_keys_iff: "k \<in> fst ` set d \<longleftrightarrow> map_of d k \<noteq> None"
  by (simp add: map_of_eq_None_iff)

lemma convert_rules_total:
  assumes "map_of d k = Some v"
  shows "\<exists>nd'. convert_rules k (PDict d) rs nd = Inr nd'"
  using assms
  by (induction rs arbitrary: nd) (auto simp: Let_def split: sum.splits)

lemma convert_rules_other:
  assumes "convert_rules k (PDict d) rs nd = Inr nd'"
    and "t \<notin> rule_target k ` set rs"
  shows "map_of nd' t = map_of nd t"
  using assms
proof (induction rs arbitrary: nd)
  case Nil
  then show ?case by simp
next
  case (Cons r rs)
  then show ?case
    by (auto simp: Let_def map_of_dict_set split: sum.splits option.splits)
qed

lemma convert_rules_lookup:
  assumes "convert_rules k (PDict d) rs nd = Inr nd'"
    and "map_of d k = Some v"
    and "distinct (map (rule_target k) rs)"
    and "r \<in> set rs"
  shows "map_of nd' (rule_target k r) =
           (case rule_value r v of Inl e \<Rightarrow> map_of nd (rule_target k r) | Inr x \<Rightarrow> Some x)"
  using assms
proof (induction rs arbitrary: nd)
  case Nil
  then show ?case by simp
next
  case (Cons a rs)
  show ?case
  proof (cases "r = a")
    case True
    have notin: "rule_target k a \<notin> rule_target k ` set rs"
      using Cons.prems(3) by auto
    show ?thesis
    proof (cases "rule_value a v")
      case (Inl e)
      with Cons.prems(1,2) have "convert_rules k (PDict d) rs nd = Inr nd'"
        by (simp add: Let_def)
      from convert_rules_other[OF this notin] Inl True show ?thesis by simp
    next
      case (Inr x)
      with Cons.prems(1,2)
      have "convert_rules k (PDict d) rs (dict_set nd (rule_target k a) x) = Inr nd'"
        by (simp add: Let_def)
      from convert_rules_other[OF this notin] Inr True show ?thesis
        by (simp add: map_of_dict_set)
    qed
  next
    case False
    with Cons.prems(4) have r_in: "r \<in> set rs" by simp
    have dist: "distinct (map (rule_target k) rs)" using Cons.prems(3) by simp
    have neq: "rule_target k a \<noteq> rule_target k r"
      using Cons.prems(3) r_in by auto
    show ?thesis
    proof (cases "rule_value a v")
      case (Inl e)
      with Cons.prems(1,2) have "convert_rules k (PDict d) rs nd = Inr nd'"
        by (simp add: Let_def)
      from Cons.IH[OF this Cons.prems(2) dist r_in] show ?thesis .
    next
      case (Inr x)
      with Cons.prems(1,2)
      have "convert_rules k (PDict d) rs (dict_set nd (rule_target k a) x) = Inr nd'"
        by (simp add: Let_def)
      from Cons.IH[OF this Cons.prems(2) dist r_in] neq show ?thesis
        by (simp add: map_of_dict_set split: sum.splits)
    qed
  qed
qed

lemma convert_keys_total: "\<exists>nd'. convert_keys T (PDict d) nd = Inr nd'"
proof (induction T arbitrary: nd)
  case Nil
  then show ?case by simp
next
  case (Cons kc T)
  obtain k c where kc: "kc = (k, c)" by (cases kc)
  show ?case
  proof (cases "map_of d k")
    case None
    then have "k \<notin> set (map fst d)" by (simp add: in_keys_iff)
    with Cons kc show ?thesis by simp
  next
    case (Some v)
    then have "k \<in> set (map fst d)" by (simp add: in_keys_iff)
    moreover obtain nd1 where "convert_rules k (PDict d) (rules_of c) nd = Inr nd1"
      using convert_rules_total[OF Some] by blast
    ultimately show ?thesis using Cons kc by simp
  qed
qed

lemma convert_keys_other:
  assumes "convert_keys T (PDict d) nd = Inr nd'"
    and "t \<notin> set (targets T)"
  shows "map_of nd' t = map_of nd t"
  using assms
proof (induction T arbitrary: nd)
  case Nil
  then show ?case by simp
next
  case (Cons kc T)
  obtain k c where kc: "kc = (k, c)" by (cases kc)
  have t1: "t \<notin> rule_target k ` set (rules_of c)" and t2: "t \<notin> set (targets T)"
    using Cons.prems(2) kc by (auto simp: targets_def)
  show ?case
  proof (cases "k \<in> set (map fst d)")
    case False
    with Cons.prems(1) kc have "convert_keys T (PDict d) nd = Inr nd'" by simp
    from Cons.IH[OF this t2] show ?thesis .
  next
    case True
    with Cons.prems(1) kc obtain nd1 where
      a: "convert_rules k (PDict d) (rules_of c) nd = Inr nd1" and
      b: "convert_keys T (PDict d) nd1 = Inr nd'"
      by (auto split: sum.splits)
    from Cons.IH[OF b t2] convert_rules_other[OF a t1] show ?thesis by simp
  qed
qed

lemma convert_keys_lookup:
  assumes "convert_keys T (PDict d) nd = Inr nd'"
    and "distinct (targets T)"
    and "(k, c) \<in> set T"
    and "r \<in> set (rules_of c)"
  shows "map_of nd' (rule_target k r) =
           (case map_of d k of
              None \<Rightarrow> map_of nd (rule_target k r)
            | Some v \<Rightarrow>
                (case rule_value r v of
                   Inl e \<Rightarrow> map_of nd (rule_target k r)
                 | Inr x \<Rightarrow> Some x))"
  using assms
proof (induction T arbitrary: nd)
  case Nil
  then show ?case by simp
next
  case (Cons kc T)
  obtain k0 c0 where kc: "kc = (k0, c0)" by (cases kc)
  have d0: "distinct (map (rule_target k0) (rules_of c0))"
    and dT: "distinct (targets T)"
    and disj: "rule_target k0 ` set (rules_of c0) \<inter> set (targets T) = {}"
    using Cons.prems(2) kc by (auto simp: targets_def)
  let ?t = "rule_target k r"
  show ?case
  proof (cases "(k, c) = (k0, c0)")
    case True
    then have k: "k = k0" and c: "c = c0" by simp_all
    have tin: "?t \<in> rule_target k0 ` set (rules_of c0)"
      using Cons.prems(4) k c by auto
    with disj have t2: "?t \<notin> set (targets T)" by auto
    show ?thesis
    proof (cases "map_of d k0")
      case None
      then have "k0 \<notin> set (map fst d)" by (simp add: in_keys_iff)
      with Cons.prems(1) kc have "convert_keys T (PDict d) nd = Inr nd'" by simp
      from convert_keys_other[OF this t2] None k show ?thesis by (simp split: sum.splits)
    next
      case (Some v)
      then have "k0 \<in> set (map fst d)" by (simp add: in_keys_iff)
      with Cons.prems(1) kc obtain nd1 where
        a: "convert_rules k0 (PDict d) (rules_of c0) nd = Inr nd1" and
        b: "convert_keys T (PDict d) nd1 = Inr nd'"
        by (auto split: sum.splits)
      have "r \<in> set (rules_of c0)" using Cons.prems(4) c by simp
      from convert_rules_lookup[OF a Some d0 this] convert_keys_other[OF b t2] Some k
      show ?thesis by (simp split: sum.splits)
    qed
  next
    case False
    with Cons.prems(3) kc have inT: "(k, c) \<in> set T" by auto
    then have "?t \<in> set (targets T)"
      using Cons.prems(4) by (force simp: targets_def)
    with disj have t1: "?t \<notin> rule_target k0 ` set (rules_of c0)" by auto
    show ?thesis
    proof (cases "k0 \<in> set (map fst d)")
      case False
      with Cons.prems(1) kc have "convert_keys T (PDict d) nd = Inr nd'" by simp
      from Cons.IH[OF this dT inT Cons.prems(4)] show ?thesis .
    next
      case True
      with Cons.prems(1) kc obtain nd1 where
        a: "convert_rules k0 (PDict d) (rules_of c0) nd = Inr nd1" and
        b: "convert_keys T (PDict d) nd1 = Inr nd'"
        by (auto split: sum.splits)
      from Cons.IH[OF b dT inT Cons.prems(4)] convert_rules_other[OF a t1]
      show ?thesis by (simp split: option.splits sum.splits)
    qed
  qed
qed

lemma distinct_targets_key_conversion: "distinct (targets key_conversion)"
  by (simp add: targets_def key_conversion_def rule_target_def)

lemma targets_key_conversion:
  "targets key_conversion =
     [''doi'', ''url'', ''author_list'', ''journal'', ''issue'', ''language'', ''pages'',
      ''year'', ''month'', ''publisher'', ''citations'', ''title'', ''type'', ''volume'']"
  by (simp add: targets_def key_conversion_def rule_target_def)

lemma author_field_other:
  assumes "author_field E nd = Inr wa" and "t \<noteq> ''author''"
  shows "map_of wa t = map_of nd t"
  using assms
  by (auto simp: author_field_def map_of_dict_set split: option.splits sum.splits)

lemma ref_field_other:
  assumes "ref_field E wa = Inr res" and "t \<noteq> ''ref''"
  shows "map_of res t = map_of wa t"
  using assms
  by (auto simp: ref_field_def map_of_dict_set split: sum.splits)

lemma convert_keys_field:
  assumes "convert_keys key_conversion (PDict d) [] = Inr nd"
    and "(k, c) \<in> set key_conversion"
    and "r \<in> set (rules_of c)"
  shows "map_of nd (rule_target k r) =
           (case map_of d k of
              None \<Rightarrow> None
            | Some v \<Rightarrow> (case rule_value r v of Inl e \<Rightarrow> None | Inr x \<Rightarrow> Some x))"
  using convert_keys_lookup[OF assms(1) distinct_targets_key_conversion assms(2,3)]
  by (simp split: option.splits sum.splits)

lemma target_in_targets:
  assumes "(k, c) \<in> set T" and "r \<in> set (rules_of c)"
  shows "rule_target k r \<in> set (targets T)"
  using assms by (force simp: targets_def)

lemma target_not_derived:
  assumes "t \<in> set (targets key_conversion)"
  shows "t \<noteq> ''author'' \<and> t \<noteq> ''ref''"
  using assms unfolding targets_key_conversion by auto

lemma crossref_data_steps:
  assumes "crossref_data_to_papis_data E data = Inr res"
  shows "\<exists>nd wa. convert_keys key_conversion data [] = Inr nd
           \<and> author_field E nd = Inr wa \<and> ref_field E wa = Inr res"
  using assms
  by (auto simp: crossref_data_to_papis_data_def split: sum.splits)

lemma crossref_data_field:
  assumes "crossref_data_to_papis_data E (PDict d) = Inr res"
    and "(k, c) \<in> set key_conversion"
    and "r \<in> set (rules_of c)"
  shows "map_of res (rule_target k r) =
           (case map_of d k of
              None \<Rightarrow> None
            | Some v \<Rightarrow> (case rule_value r v of Inl e \<Rightarrow> None | Inr x \<Rightarrow> Some x))"
proof -
  from crossref_data_steps[OF assms(1)] obtain nd wa where
    s: "convert_keys key_conversion (PDict d) [] = Inr nd"
       "author_field E nd = Inr wa" "ref_field E wa = Inr res"
    by blast
  have t: "rule_target k r \<noteq> ''author'' \<and> rule_target k r \<noteq> ''ref''"
    using target_not_derived[OF target_in_targets[OF assms(2,3)]] .
  have "map_of res (rule_target k r) = map_of nd (rule_target k r)"
    using ref_field_other[OF s(3)] author_field_other[OF s(2)] t by simp
  then show ?thesis using convert_keys_field[OF s(1) assms(2,3)] by simp
qed

section \<open>The claims on the conversion\<close>

text \<open>
  Claim C1. When the transform of a rule raises for a source key that is in the record and
  in the conversion table, the loops still end with a record: the key of that rule is not
  in it, and every rule of any source key of the record whose transform returns has
  stored its value. The same holds of the record that \<^verbatim>\<open>crossref_data_to_papis_data\<close>
  returns, and whether it returns depends on the two derived fields only: the exception of
  the transform does not reach the caller.
\<close>

theorem transform_failure_is_isolated:
  assumes "(k, c) \<in> set key_conversion" and "r \<in> set (rules_of c)"
    and "map_of d k = Some v" and "rule_value r v = Inl e"
  shows "\<exists>nd. convert_keys key_conversion (PDict d) [] = Inr nd
           \<and> crossref_data_to_papis_data E (PDict d) =
               (case author_field E nd of Inl x \<Rightarrow> Inl x | Inr wa \<Rightarrow> ref_field E wa)
           \<and> map_of nd (rule_target k r) = None
           \<and> (\<forall>k' c' r' v' x. (k', c') \<in> set key_conversion \<longrightarrow> r' \<in> set (rules_of c') \<longrightarrow>
                 map_of d k' = Some v' \<longrightarrow> rule_value r' v' = Inr x \<longrightarrow>
                 map_of nd (rule_target k' r') = Some x)
           \<and> (\<forall>res. crossref_data_to_papis_data E (PDict d) = Inr res \<longrightarrow>
                 map_of res (rule_target k r) = None
                 \<and> (\<forall>k' c' r' v' x. (k', c') \<in> set key_conversion \<longrightarrow>
                       r' \<in> set (rules_of c') \<longrightarrow> map_of d k' = Some v' \<longrightarrow>
                       rule_value r' v' = Inr x \<longrightarrow>
                       map_of res (rule_target k' r') = Some x))"
proof -
  obtain nd where nd: "convert_keys key_conversion (PDict d) [] = Inr nd"
    using convert_keys_total by blast
  have a: "crossref_data_to_papis_data E (PDict d) =
             (case author_field E nd of Inl x \<Rightarrow> Inl x | Inr wa \<Rightarrow> ref_field E wa)"
    by (simp add: crossref_data_to_papis_data_def nd)
  have b: "map_of nd (rule_target k r) = None"
    using convert_keys_field[OF nd assms(1,2)] assms(3,4) by simp
  have c: "map_of nd (rule_target k' r') = Some x"
    if "(k', c') \<in> set key_conversion" "r' \<in> set (rules_of c')"
       "map_of d k' = Some v'" "rule_value r' v' = Inr x" for k' c' r' v' x
    using convert_keys_field[OF nd that(1,2)] that(3,4) by simp
  have d1: "map_of res (rule_target k r) = None"
    if "crossref_data_to_papis_data E (PDict d) = Inr res" for res
    using crossref_data_field[OF that assms(1,2)] assms(3,4) by simp
  have d2: "map_of res (rule_target k' r') = Some x"
    if "crossref_data_to_papis_data E (PDict d) = Inr res"
       "(k', c') \<in> set key_conversion" "r' \<in> set (rules_of c')"
       "map_of d k' = Some v'" "rule_value r' v' = Inr x" for res k' c' r' v' x
    using crossref_data_field[OF that(1,2,3)] that(4,5) by simp
  from nd a b c d1 d2 show ?thesis by blast
qed


theorem transform_failure_is_isolated_witness:
  "rule_value \<lparr>key = Some ''title'', action = Some title_action\<rparr> (PInt 3) = Inl TypeError
   \<and> (\<exists>nd. convert_keys key_conversion
              (PDict [(''DOI'', PStr ''10.1/x''), (''title'', PInt 3),
                      (''type'', PStr ''journal-article'')]) [] = Inr nd
          \<and> map_of nd ''title'' = None
          \<and> map_of nd ''doi'' = Some (PStr ''10.1/x'')
          \<and> map_of nd ''type'' = Some (PStr ''article''))"
proof -
  let ?r = "\<lparr>key = Some ''title'', action = Some title_action\<rparr>"
  let ?d = "[(''DOI'', PStr ''10.1/x''), (''title'', PInt 3),
             (''type'', PStr ''journal-article'')]"
  have h1: "(''title'', Single ?r) \<in> set key_conversion"
    by (simp add: key_conversion_def)
  have h2: "?r \<in> set (rules_of (Single ?r))" by simp
  have h3: "map_of ?d ''title'' = Some (PInt 3)" by simp
  have h4: "rule_value ?r (PInt 3) = Inl TypeError"
    by (simp add: rule_value_def title_action_def py_join_def)
  have g1: "(''DOI'', Single \<lparr>key = Some ''doi'', action = None\<rparr>) \<in> set key_conversion"
    by (simp add: key_conversion_def)
  have g2: "rule_value \<lparr>key = Some ''doi'', action = None\<rparr> (PStr ''10.1/x'') = Inr (PStr ''10.1/x'')"
    by (simp add: rule_value_def)
  have g3: "(''type'', Single \<lparr>key = Some ''type'', action = Some type_action\<rparr>)
              \<in> set key_conversion"
    by (simp add: key_conversion_def)
  have g4: "rule_value \<lparr>key = Some ''type'', action = Some type_action\<rparr>
              (PStr ''journal-article'') = Inr (PStr ''article'')"
    by (simp add: rule_value_def type_action_def type_converter_def)
  from transform_failure_is_isolated[OF h1 h2 h3 h4, of sample_env]
  obtain nd where nd: "convert_keys key_conversion (PDict ?d) [] = Inr nd"
    and n1: "map_of nd (rule_target ''title'' ?r) = None"
    and n2: "\<And>k' c' r' v' x. (k', c') \<in> set key_conversion \<Longrightarrow> r' \<in> set (rules_of c') \<Longrightarrow>
                 map_of ?d k' = Some v' \<Longrightarrow> rule_value r' v' = Inr x \<Longrightarrow>
                 map_of nd (rule_target k' r') = Some x"
    by blast
  have "map_of nd ''doi'' = Some (PStr ''10.1/x'')"
    using n2[OF g1 _ _ g2] by (simp add: rule_target_def)
  moreover have "map_of nd ''type'' = Some (PStr ''article'')"
    using n2[OF g3 _ _ g4] by (simp add: rule_target_def)
  moreover have "map_of nd ''title'' = None"
    using n1 by (simp add: rule_target_def)
  ultimately show ?thesis using nd h4 by blast
qed

text \<open>
  Claim C3. A source key of the record whose rules all succeed gives as many fields as it
  has rules: the keys of its rules are that many, all of them are in the record returned,
  each with the value of its rule. For \<^verbatim>\<open>published-print\<close> these are \<^verbatim>\<open>year\<close> and
  \<^verbatim>\<open>month\<close>.
\<close>

theorem fan_out:
  assumes "(k, c) \<in> set key_conversion" and "map_of d k = Some v"
    and "\<forall>r \<in> set (rules_of c). \<exists>x. rule_value r v = Inr x"
    and "crossref_data_to_papis_data E (PDict d) = Inr res"
  shows "card (rule_target k ` set (rules_of c) \<inter> fst ` set res) = length (rules_of c)
         \<and> (\<forall>r \<in> set (rules_of c). \<forall>x. rule_value r v = Inr x \<longrightarrow>
               map_of res (rule_target k r) = Some x)"
proof -
  have val: "map_of res (rule_target k r) = Some x"
    if "r \<in> set (rules_of c)" "rule_value r v = Inr x" for r x
    using crossref_data_field[OF assms(4,1) that(1)] assms(2) that(2) by simp
  have "rule_target k ` set (rules_of c) \<subseteq> fst ` set res"
  proof
    fix t assume "t \<in> rule_target k ` set (rules_of c)"
    then obtain r where r: "r \<in> set (rules_of c)" "t = rule_target k r" by blast
    with assms(3) obtain x where "rule_value r v = Inr x" by blast
    from val[OF r(1) this] r(2) show "t \<in> fst ` set res"
      by (simp add: in_keys_iff)
  qed
  then have eq: "rule_target k ` set (rules_of c) \<inter> fst ` set res
                   = set (map (rule_target k) (rules_of c))"
    by auto
  have "distinct (map (rule_target k) (rules_of c))"
    using assms(1) distinct_targets_key_conversion
    by (auto simp: key_conversion_def targets_def rule_target_def)
  then have "card (set (map (rule_target k) (rules_of c))) = length (rules_of c)"
    using distinct_card by fastforce
  with eq val show ?thesis by simp
qed

theorem fan_out_witness:
  "card ({''year'', ''month''} \<inter>
      fst ` set [(''year'', PInt 2019), (''month'', PInt 5), (''ref'', PStr ''aref'')]) = 2
   \<and> crossref_data_to_papis_data sample_env
        (PDict [(''published-print'',
                 PDict [(''date-parts'', PList [PList [PInt 2019, PInt 5]])])])
       = Inr [(''year'', PInt 2019), (''month'', PInt 5), (''ref'', PStr ''aref'')]"
proof -
  let ?v = "PDict [(''date-parts'', PList [PList [PInt 2019, PInt 5]])]"
  let ?d = "[(''published-print'', ?v)]"
  let ?c = "Multiple [\<lparr>key = Some ''year'', action = Some (date_part 0)\<rparr>,
                      \<lparr>key = Some ''month'', action = Some (date_part 1)\<rparr>]"
  let ?res = "[(''year'', PInt 2019), (''month'', PInt 5), (''ref'', PStr ''aref'')]"
  have h1: "(''published-print'', ?c) \<in> set key_conversion"
    by (simp add: key_conversion_def)
  have h2: "map_of ?d ''published-print'' = Some ?v" by simp
  have h3: "\<forall>r \<in> set (rules_of ?c). \<exists>x. rule_value r ?v = Inr x"
    by (simp add: rule_value_def date_part_def)
  have h4: "crossref_data_to_papis_data sample_env (PDict ?d) = Inr ?res"
    by (simp add: crossref_data_to_papis_data_def key_conversion_def rule_target_def
        rule_value_def date_part_def author_field_def ref_field_def sample_env_def
        re_sub_space_def py_isspace_def)
  from fan_out[OF h1 h2 h3 h4] h4 show ?thesis
    by (simp add: rule_target_def)
qed

lemma re_sub_space_no_space: "\<forall>c \<in> set (re_sub_space s). \<not> py_isspace c"
  by (simp add: re_sub_space_def)

text \<open>
  Claim C4. Whenever \<^verbatim>\<open>crossref_data_to_papis_data\<close> returns a record, the field
  \<^verbatim>\<open>ref\<close> is the last one set: the template is formatted with the record that holds the
  mapped fields and the derived field \<^verbatim>\<open>author\<close>, the result is stored under \<^verbatim>\<open>ref\<close>
  with its whitespace removed, no other field changes, and the value of \<^verbatim>\<open>ref\<close>
  holds no whitespace character.
\<close>

theorem ref_is_computed_last:
  assumes "crossref_data_to_papis_data E data = Inr res"
  shows "\<exists>nd wa s. convert_keys key_conversion data [] = Inr nd
           \<and> author_field E nd = Inr wa
           \<and> format_doc E (config_get E ''ref-format'') (Data (PDict wa)) = Inr s
           \<and> res = dict_set wa ''ref'' (PStr (re_sub_space s))
           \<and> (\<forall>t. t \<noteq> ''ref'' \<longrightarrow> map_of res t = map_of wa t)
           \<and> map_of res ''ref'' = Some (PStr (re_sub_space s))
           \<and> (\<forall>c \<in> set (re_sub_space s). \<not> py_isspace c)"
proof -
  from crossref_data_steps[OF assms] obtain nd wa where
    s: "convert_keys key_conversion data [] = Inr nd"
       "author_field E nd = Inr wa" "ref_field E wa = Inr res"
    by blast
  from s(3) obtain s where
    f: "format_doc E (config_get E ''ref-format'') (Data (PDict wa)) = Inr s"
    and r: "res = dict_set wa ''ref'' (PStr (re_sub_space s))"
    by (auto simp: ref_field_def split: sum.splits)
  have "\<forall>t. t \<noteq> ''ref'' \<longrightarrow> map_of res t = map_of wa t"
    using ref_field_other[OF s(3)] by blast
  moreover have "map_of res ''ref'' = Some (PStr (re_sub_space s))"
    using r by (simp add: map_of_dict_set)
  ultimately show ?thesis using s(1,2) f r re_sub_space_no_space by blast
qed

theorem ref_is_computed_last_witness:
  "crossref_data_to_papis_data sample_env
     (PDict [(''author'', PList [PDict [(''given'', PStr ''F''), (''family'', PStr ''D'')]])])
     = Inr [(''author_list'', PList [PDict [(''given'', PStr ''F''), (''family'', PStr ''D'')]]),
            (''author'', PStr ''multiple-authors-format''),
            (''ref'', PStr ''aref'')]
   \<and> (\<exists>s. format_doc sample_env (config_get sample_env ''ref-format'')
             (Data (PDict [(''author_list'',
                             PList [PDict [(''given'', PStr ''F''), (''family'', PStr ''D'')]]),
                           (''author'', PStr ''multiple-authors-format'')])) = Inr s
          \<and> re_sub_space s = ''aref'')"
proof -
  let ?d = "PDict [(''author'', PList [PDict [(''given'', PStr ''F''), (''family'', PStr ''D'')]])]"
  let ?al = "PList [PDict [(''given'', PStr ''F''), (''family'', PStr ''D'')]]"
  let ?res = "[(''author_list'', ?al), (''author'', PStr ''multiple-authors-format''),
               (''ref'', PStr ''aref'')]"
  have nd: "convert_keys key_conversion ?d [] = Inr [(''author_list'', ?al)]"
    by (simp add: key_conversion_def rule_target_def rule_value_def author_action_def
        given_family_def)
  have wa: "author_field sample_env [(''author_list'', ?al)]
              = Inr [(''author_list'', ?al), (''author'', PStr ''multiple-authors-format'')]"
    by (simp add: author_field_def sample_env_def)
  have rf: "ref_field sample_env
              [(''author_list'', ?al), (''author'', PStr ''multiple-authors-format'')] = Inr ?res"
    by (simp add: ref_field_def sample_env_def re_sub_space_def py_isspace_def)
  have h: "crossref_data_to_papis_data sample_env ?d = Inr ?res"
    by (simp add: crossref_data_to_papis_data_def nd wa rf)
  from ref_is_computed_last[OF h] nd wa h show ?thesis
    by auto
qed

text \<open>The substitution of the page rule, by the position of the first dash.\<close>

lemma re_sub_dash_other:
  assumes "x \<noteq> CHR ''-''"
  shows "re_sub_dash (x # s) = x # re_sub_dash s"
  using assms by (cases s) simp_all

lemma re_sub_dash_prefix:
  assumes "CHR ''-'' \<notin> set a"
  shows "re_sub_dash (a @ s) = a @ re_sub_dash s"
  using assms
proof (induction a)
  case Nil
  then show ?case by simp
next
  case (Cons x a)
  from Cons.prems have x: "x \<noteq> CHR ''-''" and a: "CHR ''-'' \<notin> set a" by auto
  from re_sub_dash_other[OF x, of "a @ s"] Cons.IH[OF a] show ?case by simp
qed

lemma re_sub_dash_no_dash:
  assumes "CHR ''-'' \<notin> set a"
  shows "re_sub_dash a = a"
  using re_sub_dash_prefix[OF assms, of "[]"] by simp

lemma re_sub_dash_match:
  assumes "CHR ''-'' \<notin> set a" and "c \<noteq> CHR ''-''"
  shows "re_sub_dash (a @ CHR ''-'' # c # s) = a @ CHR ''-'' # CHR ''-'' # c # re_sub_dash s"
  using assms by (simp add: re_sub_dash_prefix)

lemma re_sub_dash_run:
  assumes "CHR ''-'' \<notin> set a"
  shows "re_sub_dash (a @ CHR ''-'' # CHR ''-'' # s) = a @ CHR ''-'' # re_sub_dash (CHR ''-'' # s)"
  using assms by (simp add: re_sub_dash_prefix)

lemma re_sub_dash_last:
  assumes "CHR ''-'' \<notin> set a"
  shows "re_sub_dash (a @ [CHR ''-'']) = a @ [CHR ''-'']"
  using assms by (simp add: re_sub_dash_prefix)

lemma re_sub_dash_range:
  assumes "CHR ''-'' \<notin> set a" and "CHR ''-'' \<notin> set b" and "b \<noteq> []"
  shows "re_sub_dash (a @ CHR ''-'' # b) = a @ CHR ''-'' # CHR ''-'' # b"
proof -
  from assms(3) obtain c s where b: "b = c # s" by (cases b) auto
  with assms(2) have c: "c \<noteq> CHR ''-''" and s: "CHR ''-'' \<notin> set s" by auto
  show ?thesis
    unfolding b using re_sub_dash_match[OF assms(1) c, of s] re_sub_dash_no_dash[OF s]
    by simp
qed

lemma re_sub_dash_keeps_others:
  "filter (\<lambda>c. c \<noteq> CHR ''-'') (re_sub_dash s) = filter (\<lambda>c. c \<noteq> CHR ''-'') s"
  by (induction s rule: re_sub_dash.induct) auto


text \<open>
  Claim C5. For the record \<^verbatim>\<open>{"page": "12-3"}\<close> the conversion yields the field
  \<^verbatim>\<open>pages\<close> with the value \<^verbatim>\<open>12--3\<close>, and only the field \<^verbatim>\<open>ref\<close> is still to be
  added; for every record whose \<^verbatim>\<open>page\<close> is a string, the record returned has under
  \<^verbatim>\<open>pages\<close> that string after the substitution, and a page range with one dash comes
  out with two. The substitution is the one of the pattern: up to the first dash the
  text is copied; a dash followed by another character is doubled and the scan goes on
  after that character; a dash followed by a dash, or at the end, is copied; no other
  character is added or removed.
\<close>

theorem page_rule:
  "re_sub_dash ''12-3'' = ''12--3''
   \<and> crossref_data_to_papis_data E (PDict [(''page'', PStr ''12-3'')])
     = ref_field E [(''pages'', PStr ''12--3'')]
   \<and> (\<forall>d p res. map_of d ''page'' = Some (PStr p) \<longrightarrow>
         crossref_data_to_papis_data E (PDict d) = Inr res \<longrightarrow>
         map_of res ''pages'' = Some (PStr (re_sub_dash p)))
   \<and> (\<forall>d a b res. CHR ''-'' \<notin> set a \<longrightarrow> CHR ''-'' \<notin> set b \<longrightarrow> b \<noteq> [] \<longrightarrow>
         map_of d ''page'' = Some (PStr (a @ CHR ''-'' # b)) \<longrightarrow>
         crossref_data_to_papis_data E (PDict d) = Inr res \<longrightarrow>
         map_of res ''pages'' = Some (PStr (a @ CHR ''-'' # CHR ''-'' # b)))
   \<and> (\<forall>a. CHR ''-'' \<notin> set a \<longrightarrow>
         re_sub_dash a = a \<and> re_sub_dash (a @ [CHR ''-'']) = a @ [CHR ''-''])
   \<and> (\<forall>a c s. CHR ''-'' \<notin> set a \<longrightarrow> c \<noteq> CHR ''-'' \<longrightarrow>
         re_sub_dash (a @ CHR ''-'' # c # s) = a @ CHR ''-'' # CHR ''-'' # c # re_sub_dash s)
   \<and> (\<forall>a s. CHR ''-'' \<notin> set a \<longrightarrow>
         re_sub_dash (a @ CHR ''-'' # CHR ''-'' # s)
           = a @ CHR ''-'' # re_sub_dash (CHR ''-'' # s))
   \<and> (\<forall>p. filter (\<lambda>c. c \<noteq> CHR ''-'') (re_sub_dash p) = filter (\<lambda>c. c \<noteq> CHR ''-'') p)"
proof -
  have a: "crossref_data_to_papis_data E (PDict [(''page'', PStr ''12-3'')])
             = ref_field E [(''pages'', PStr ''12--3'')]"
    by (simp add: crossref_data_to_papis_data_def key_conversion_def rule_target_def
        rule_value_def page_action_def author_field_def)
  let ?r = "\<lparr>key = Some ''pages'', action = Some page_action\<rparr>"
  have m: "(''page'', Single ?r) \<in> set key_conversion"
    by (simp add: key_conversion_def)
  have b: "map_of res ''pages'' = Some (PStr (re_sub_dash p))"
    if "map_of d ''page'' = Some (PStr p)"
       "crossref_data_to_papis_data E (PDict d) = Inr res" for d p res
    using crossref_data_field[OF that(2) m, of ?r] that(1)
    by (simp add: rule_target_def rule_value_def page_action_def)
  have c: "re_sub_dash ''12-3'' = ''12--3''" by simp
  have r: "map_of res ''pages'' = Some (PStr (a @ CHR ''-'' # CHR ''-'' # b))"
    if "CHR ''-'' \<notin> set a" "CHR ''-'' \<notin> set b" "b \<noteq> []"
       "map_of d ''page'' = Some (PStr (a @ CHR ''-'' # b))"
       "crossref_data_to_papis_data E (PDict d) = Inr res" for d a b res
    using b[OF that(4,5)] re_sub_dash_range[OF that(1,2,3)] by simp
  show ?thesis
  proof (intro conjI allI impI)
    show "re_sub_dash ''12-3'' = ''12--3''" by (rule c)
    show "crossref_data_to_papis_data E (PDict [(''page'', PStr ''12-3'')])
            = ref_field E [(''pages'', PStr ''12--3'')]" by (rule a)
  next
    fix d p res
    assume "map_of d ''page'' = Some (PStr p)"
      and "crossref_data_to_papis_data E (PDict d) = Inr res"
    then show "map_of res ''pages'' = Some (PStr (re_sub_dash p))" by (rule b)
  next
    fix d a b res
    assume "CHR ''-'' \<notin> set a" "CHR ''-'' \<notin> set b" "b \<noteq> []"
      "map_of d ''page'' = Some (PStr (a @ CHR ''-'' # b))"
      "crossref_data_to_papis_data E (PDict d) = Inr res"
    then show "map_of res ''pages'' = Some (PStr (a @ CHR ''-'' # CHR ''-'' # b))" by (rule r)
  next
    fix a assume "CHR ''-'' \<notin> set a"
    then show "re_sub_dash a = a" by (rule re_sub_dash_no_dash)
  next
    fix a assume "CHR ''-'' \<notin> set a"
    then show "re_sub_dash (a @ [CHR ''-'']) = a @ [CHR ''-'']" by (rule re_sub_dash_last)
  next
    fix a c s assume "CHR ''-'' \<notin> set a" "c \<noteq> CHR ''-''"
    then show "re_sub_dash (a @ CHR ''-'' # c # s) = a @ CHR ''-'' # CHR ''-'' # c # re_sub_dash s"
      by (rule re_sub_dash_match)
  next
    fix a s assume "CHR ''-'' \<notin> set a"
    then show "re_sub_dash (a @ CHR ''-'' # CHR ''-'' # s)
                 = a @ CHR ''-'' # re_sub_dash (CHR ''-'' # s)"
      by (rule re_sub_dash_run)
  next
    fix p
    show "filter (\<lambda>c. c \<noteq> CHR ''-'') (re_sub_dash p) = filter (\<lambda>c. c \<noteq> CHR ''-'') p"
      by (rule re_sub_dash_keeps_others)
  qed
qed


theorem page_rule_witness:
  "crossref_data_to_papis_data sample_env
      (PDict [(''DOI'', PStr ''10.1/x''), (''page'', PStr ''101-110'')])
     = Inr [(''doi'', PStr ''10.1/x''), (''pages'', PStr ''101--110''), (''ref'', PStr ''aref'')]
   \<and> map_of [(''doi'', PStr ''10.1/x''), (''pages'', PStr ''101--110''), (''ref'', PStr ''aref'')]
        ''pages'' = Some (PStr (re_sub_dash ''101-110''))
   \<and> re_sub_dash ''101-110'' = ''101--110''
   \<and> re_sub_dash ''3-7-9'' = ''3--7--9''
   \<and> re_sub_dash ''3--7'' = ''3---7''
   \<and> re_sub_dash ''37-'' = ''37-''"
proof -
  let ?d = "[(''DOI'', PStr ''10.1/x''), (''page'', PStr ''101-110'')]"
  let ?res = "[(''doi'', PStr ''10.1/x''), (''pages'', PStr ''101--110''), (''ref'', PStr ''aref'')]"
  have h1: "map_of ?d ''page'' = Some (PStr ''101-110'')" by simp
  have h2: "crossref_data_to_papis_data sample_env (PDict ?d) = Inr ?res"
    by (simp add: crossref_data_to_papis_data_def key_conversion_def rule_target_def
        rule_value_def page_action_def author_field_def ref_field_def sample_env_def
        re_sub_space_def py_isspace_def)
  have n1: "CHR ''-'' \<notin> set ''101''" and n2: "CHR ''-'' \<notin> set ''110''"
    and n3: "''110'' \<noteq> []" and n4: "CHR ''-'' \<notin> set ''3''"
    and n5: "CHR ''7'' \<noteq> CHR ''-''" and n6: "CHR ''-'' \<notin> set ''37''"
    by simp_all
  have h3: "map_of ?d ''page'' = Some (PStr (''101'' @ CHR ''-'' # ''110''))" by simp
  note T = page_rule[of sample_env]
  note T3 = T[THEN conjunct2, THEN conjunct2, THEN conjunct1, rule_format]
  note T4 = T[THEN conjunct2, THEN conjunct2, THEN conjunct2, THEN conjunct1, rule_format]
  note T5 = T[THEN conjunct2, THEN conjunct2, THEN conjunct2, THEN conjunct2, THEN conjunct1,
      rule_format]
  note T6 = T[THEN conjunct2, THEN conjunct2, THEN conjunct2, THEN conjunct2, THEN conjunct2,
      THEN conjunct1, rule_format]
  note T7 = T[THEN conjunct2, THEN conjunct2, THEN conjunct2, THEN conjunct2, THEN conjunct2,
      THEN conjunct2, THEN conjunct1, rule_format]
  have w1: "map_of ?res ''pages'' = Some (PStr (re_sub_dash ''101-110''))"
    using T3[OF h1 h2] .
  have w2: "map_of ?res ''pages'' = Some (PStr (''101'' @ CHR ''-'' # CHR ''-'' # ''110''))"
    using T4[OF n1 n2 n3 h3 h2] .
  have w3: "re_sub_dash (''3'' @ CHR ''-'' # CHR ''7'' # ''-9'')
              = ''3'' @ CHR ''-'' # CHR ''-'' # CHR ''7'' # re_sub_dash ''-9''"
    using T6[OF n4 n5] .
  have w4: "re_sub_dash (''3'' @ CHR ''-'' # CHR ''-'' # ''7'')
              = ''3'' @ CHR ''-'' # re_sub_dash (CHR ''-'' # ''7'')"
    using T7[OF n4] .
  have w5: "re_sub_dash (''37'' @ [CHR ''-'']) = ''37'' @ [CHR ''-'']"
    using T5[OF n6] by simp
  from w1 w2 have e: "re_sub_dash ''101-110'' = ''101--110''" by simp
  from h2 w1 e w3 w4 w5 show ?thesis by simp
qed

text \<open>
  Claim C9, as amended. For every input that is not a dictionary,
  \<^verbatim>\<open>crossref_data_to_papis_data\<close> returns no record, neither a partial one: it raises
  the \<^verbatim>\<open>AttributeError\<close> of \<^verbatim>\<open>data.keys()\<close>.
\<close>

theorem non_mapping_input_raises:
  assumes "\<forall>d. data \<noteq> PDict d"
  shows "crossref_data_to_papis_data E data = Inl AttributeError"
  using assms
  by (cases data) (simp_all add: crossref_data_to_papis_data_def key_conversion_def)

theorem non_mapping_input_raises_witness:
  "crossref_data_to_papis_data sample_env (PStr ''10.1/x'') = Inl AttributeError"
  using non_mapping_input_raises[of "PStr ''10.1/x''" sample_env] by simp

text \<open>
  Claim C9, as stated, names the error \<^verbatim>\<open>InvalidSourceRecord\<close>. The code has no such
  class: for the empty list the exception is \<^verbatim>\<open>AttributeError\<close>.
\<close>

theorem invalid_source_record_counterexample:
  "crossref_data_to_papis_data sample_env (PList []) = Inl AttributeError
   \<and> crossref_data_to_papis_data sample_env (PList []) \<noteq> Inl InvalidSourceRecord"
  by (simp add: crossref_data_to_papis_data_def key_conversion_def InvalidSourceRecord_def)

section \<open>The claims on retrieval and on the chain of commands\<close>

text \<open>
  Claim C7. When the call of the crossref service raises, or when its answer is a
  dictionary without the key \<^verbatim>\<open>message\<close>, \<^verbatim>\<open>get_data\<close> returns the empty list and
  raises nothing; the command \<^verbatim>\<open>crossref\<close> then adds no document and the chain goes on
  with the next command on the same state.
\<close>

theorem get_data_swallows_retrieval_errors:
  assumes "get_crossref_works E (get_data_kwargs query author title dois max_results) = Inl e
           \<or> (\<exists>r. get_crossref_works E (get_data_kwargs query author title dois max_results)
                     = Inr (PDict r) \<and> ''message'' \<notin> fst ` set r)"
  shows "get_data E query author title dois max_results = Inr []
         \<and> (dois = [] \<longrightarrow>
              crossref E query author title max_results st = Inr st
              \<and> run_chain E (Crossref query author title max_results # rest) st
                  = run_chain E rest st)"
proof -
  have g: "get_data E query author title dois max_results = Inr []"
    using assms by (auto simp: get_data_def)
  have "crossref E query author title max_results st = Inr st" if "dois = []"
    using g that by (simp add: crossref_def crossref_docs_def)
  then show ?thesis using g by simp
qed

theorem get_data_swallows_retrieval_errors_witness:
  "get_crossref_works sample_env
      (get_data_kwargs (PStr ''down'') PNone PNone [] (PInt 20)) = Inl (OtherError ''HTTPError'')
   \<and> get_data sample_env (PStr ''down'') PNone PNone [] (PInt 20) = Inr []
   \<and> explore sample_env [Crossref (PStr ''down'') PNone PNone (PInt 20), Export ''bibtex'' None]
       = Inr \<lparr>documents = [], effects = [Printed ''bibtex'']\<rparr>"
proof -
  have h: "get_crossref_works sample_env
      (get_data_kwargs (PStr ''down'') PNone PNone [] (PInt 20)) = Inl (OtherError ''HTTPError'')"
    by (simp add: get_crossref_works_def get_data_kwargs_def sample_env_def sample_works_def)
  have e: "run_chain sample_env [Export ''bibtex'' None] cli
             = Inr \<lparr>documents = [], effects = [Printed ''bibtex'']\<rparr>"
    by (simp add: export_def cli_def sample_env_def)
  from get_data_swallows_retrieval_errors[of sample_env "PStr ''down''" PNone PNone "[]"
      "PInt 20" "OtherError ''HTTPError''" cli "[Export ''bibtex'' None]"] h e
  show ?thesis by (simp add: explore_def)
qed

text \<open>
  Claim C10. When \<^verbatim>\<open>get_data\<close> returns the empty list for the DOI, \<^verbatim>\<open>doi_to_data\<close>
  returns \<^verbatim>\<open>None\<close> and raises no \<^verbatim>\<open>ValueError\<close>; in the loop of \<^verbatim>\<open>citations\<close> a DOI
  that is not in the library is then not recorded as failed: \<^verbatim>\<open>None\<close> is appended to
  the data found.
\<close>

theorem doi_to_data_returns_none:
  assumes "get_clean_doi E doi = Inr doi'"
    and "get_data E (PStr []) (PStr []) (PStr []) [doi'] (PInt 0) = Inr []"
  shows "doi_to_data E doi = Inr PNone
         \<and> (query_dict E doi = Inr [] \<longrightarrow>
               citations_fetch E (doi # dois) dois_with_data failed_dois
                 = citations_fetch E dois (dois_with_data @ [Data PNone]) failed_dois)"
  using assms by (simp add: doi_to_data_def)

theorem doi_to_data_returns_none_witness:
  "doi_to_data sample_env (PStr ''10.1/x'') = Inr PNone
   \<and> citations_fetch sample_env [PStr ''10.1/x''] [] [] = Inr ([Data PNone], [])"
proof -
  have h1: "get_clean_doi sample_env (PStr ''10.1/x'') = Inr (PStr ''10.1/x'')"
    by (simp add: sample_env_def)
  have h2: "get_data sample_env (PStr []) (PStr []) (PStr []) [PStr ''10.1/x''] (PInt 0) = Inr []"
    by (simp add: get_data_def get_crossref_works_def get_data_kwargs_def sample_env_def
        sample_works_def)
  have h3: "query_dict sample_env (PStr ''10.1/x'') = Inr []"
    by (simp add: sample_env_def)
  from doi_to_data_returns_none[OF h1 h2, of "[]" "[]" "[]"] h3
  show ?thesis by simp
qed

text \<open>
  Claim C8. When \<^verbatim>\<open>export\<close> or \<^verbatim>\<open>cmd\<close> returns, the list of documents is the one it
  was called with.
\<close>

theorem consumers_keep_documents:
  "(export E format out st = Inr st' \<longrightarrow> documents st' = documents st)
   \<and> (cmd E command st = Inr st'' \<longrightarrow> documents st'' = documents st)"
  by (auto simp: export_def cmd_def Let_def split: sum.splits option.splits)


theorem consumers_keep_documents_witness:
  "export sample_env ''bibtex'' (Some ''lib.bib'')
      \<lparr>documents = [Document (PDict [(''doi'', PStr ''10.1/x'')])], effects = []\<rparr>
     = Inr \<lparr>documents = [Document (PDict [(''doi'', PStr ''10.1/x'')])],
            effects = [Written ''lib.bib'' ''bibtex'']\<rparr>
   \<and> cmd sample_env ''firefox''
      \<lparr>documents = [Document (PDict [(''doi'', PStr ''10.1/x'')])], effects = []\<rparr>
     = Inr \<lparr>documents = [Document (PDict [(''doi'', PStr ''10.1/x'')])],
            effects = [Called [''firefox'']]\<rparr>"
proof -
  let ?st = "\<lparr>documents = [Document (PDict [(''doi'', PStr ''10.1/x'')])], effects = []\<rparr>"
  have e: "export sample_env ''bibtex'' (Some ''lib.bib'') ?st
             = Inr (?st\<lparr>effects := [Written ''lib.bib'' ''bibtex'']\<rparr>)"
    by (simp add: export_def sample_env_def)
  have c: "cmd sample_env ''firefox'' ?st = Inr (?st\<lparr>effects := [Called [''firefox'']]\<rparr>)"
    by (simp add: cmd_def sample_env_def)
  from consumers_keep_documents[of sample_env "''bibtex''" "Some ''lib.bib''" ?st
      "?st\<lparr>effects := [Written ''lib.bib'' ''bibtex'']\<rparr>" "''firefox''"
      "?st\<lparr>effects := [Called [''firefox'']]\<rparr>"] e c
  show ?thesis by simp
qed

text \<open>
  Claim C2. With two \<^verbatim>\<open>crossref\<close> commands first, the third command of the chain is run
  on the documents of the first followed by the documents of the second, and the fourth
  on the state that the third returns.
\<close>

theorem producers_concatenate_in_order:
  assumes "crossref_docs E q1 a1 t1 m1 = Inr docs1"
    and "crossref_docs E q2 a2 t2 m2 = Inr docs2"
  shows "run_chain E [Crossref q1 a1 t1 m1, Crossref q2 a2 t2 m2] cli
           = Inr \<lparr>documents = docs1 @ docs2, effects = []\<rparr>
         \<and> explore E [Crossref q1 a1 t1 m1, Crossref q2 a2 t2 m2, T1, C1]
           = (case run_command E T1 \<lparr>documents = docs1 @ docs2, effects = []\<rparr> of
                Inl e \<Rightarrow> Inl e
              | Inr st \<Rightarrow> run_command E C1 st)"
  using assms
  by (simp add: explore_def crossref_def cli_def split: sum.splits)

theorem producers_concatenate_in_order_witness:
  "explore sample_env
      [Crossref (PStr ''dyson'') PNone PNone (PInt 20), Crossref (PStr ''dyson'') PNone PNone (PInt 1),
       Pick (Some 3), Export ''bibtex'' None]
     = Inr \<lparr>documents = [Document (PDict [(''doi'', PStr ''10.1/x''), (''title'', PStr ''A Study''),
                                          (''type'', PStr ''article''), (''ref'', PStr ''aref'')])],
            effects = [Printed ''bibtex'']\<rparr>"
proof -
  let ?a = "[(''doi'', PStr ''10.1/x''), (''title'', PStr ''A Study''),
             (''type'', PStr ''article''), (''ref'', PStr ''aref'')]"
  let ?b = "[(''pages'', PStr ''12--3''), (''ref'', PStr ''aref'')]"
  have n1: "crossref_data_to_papis_data sample_env
              (PDict [(''DOI'', PStr ''10.1/x''), (''title'', PList [PStr ''A Study'']),
                      (''type'', PStr ''journal-article'')]) = Inr ?a"
    by (simp add: crossref_data_to_papis_data_def key_conversion_def rule_target_def
        rule_value_def title_action_def py_join_def type_action_def type_converter_def
        author_field_def ref_field_def sample_env_def re_sub_space_def py_isspace_def)
  have n2: "crossref_data_to_papis_data sample_env (PDict [(''page'', PStr ''12-3'')]) = Inr ?b"
    by (simp add: crossref_data_to_papis_data_def key_conversion_def rule_target_def
        rule_value_def page_action_def
        author_field_def ref_field_def sample_env_def re_sub_space_def py_isspace_def)
  have w: "habanero_works sample_env = sample_works" "from_data sample_env = (\<lambda>d. Inr (Document d))"
    by (simp_all add: sample_env_def)
  have g: "get_data sample_env (PStr ''dyson'') PNone PNone [] (PInt m) = Inr [?a, ?b]"
    if "m \<noteq> 0" for m
    using that
    by (simp add: get_data_def get_crossref_works_def get_data_kwargs_def w sample_works_def
        n1 n2)
  have h1: "crossref_docs sample_env (PStr ''dyson'') PNone PNone (PInt 20)
              = Inr [Document (PDict ?a), Document (PDict ?b)]"
    by (simp add: crossref_docs_def g w)
  have h2: "crossref_docs sample_env (PStr ''dyson'') PNone PNone (PInt 1)
              = Inr [Document (PDict ?a), Document (PDict ?b)]"
    by (simp add: crossref_docs_def g w)
  have p: "pick_doc sample_env = (\<lambda>docs. Inr (case docs of [] \<Rightarrow> None | d # _ \<Rightarrow> Some d))"
    "export_run sample_env = (\<lambda>docs fmt. Inr fmt)"
    by (simp_all add: sample_env_def)
  from producers_concatenate_in_order[OF h1 h2, of "Pick (Some 3)" "Export ''bibtex'' None"]
  show ?thesis
    by (simp add: pick_def pick_candidates_def list_getitem_def export_def p)
qed




end
